theory Spec2Isabelle
  imports Complex_Main "HOL-Library.Word"
begin

section \<open>JavaScript strings\<close>

text \<open>
  A JavaScript string is a sequence of UTF-16 code units; \<open>length\<close>, \<open>===\<close>,
  \<open>startsWith\<close>, \<open>endsWith\<close>, \<open>includes\<close>, \<open>trim\<close> and a regular expression
  without the \<open>u\<close> flag all work on code units. \<open>js\<close> embeds an ASCII literal.
\<close>

type_synonym jschar = "16 word"
type_synonym jsstring = "jschar list"

definition js :: "string \<Rightarrow> jsstring" where
  "js s = map (\<lambda>c. of_nat (of_char c)) s"

text \<open>
  The characters matched by \<open>\s\<close> and stripped by \<open>trim\<close>: ECMAScript WhiteSpace and
  LineTerminator (TAB, LF, VT, FF, CR, SP, NBSP, U+1680, U+2000..U+200A, U+2028, U+2029,
  U+202F, U+205F, U+3000, U+FEFF).
\<close>

definition isWhiteSpace :: "jschar \<Rightarrow> bool" where
  "isWhiteSpace c \<longleftrightarrow>
     (0x09 \<le> c \<and> c \<le> 0x0D) \<or> c = 0x20 \<or> c = 0xA0 \<or> c = 0x1680 \<or>
     (0x2000 \<le> c \<and> c \<le> 0x200A) \<or> c = 0x2028 \<or> c = 0x2029 \<or> c = 0x202F \<or>
     c = 0x205F \<or> c = 0x3000 \<or> c = 0xFEFF"

definition trim :: "jsstring \<Rightarrow> jsstring" where
  "trim s = rev (dropWhile isWhiteSpace (rev (dropWhile isWhiteSpace s)))"

definition startsWith :: "'a list \<Rightarrow> 'a list \<Rightarrow> bool" where
  "startsWith s p \<longleftrightarrow> take (length p) s = p"

definition endsWith :: "'a list \<Rightarrow> 'a list \<Rightarrow> bool" where
  "endsWith s p \<longleftrightarrow> length p \<le> length s \<and> drop (length s - length p) s = p"

fun includes_js :: "'a list \<Rightarrow> 'a list \<Rightarrow> bool" where
  "includes_js [] p = (p = [])"
| "includes_js (c # cs) p = (startsWith (c # cs) p \<or> includes_js cs p)"

text \<open>\<open>s.split(sep)\<close> for a one-character separator; \<open>''''.split(',')\<close> is \<open>['''']\<close>.\<close>

fun split :: "'a \<Rightarrow> 'a list \<Rightarrow> 'a list list" where
  "split sep [] = [[]]"
| "split sep (c # cs) =
     (if c = sep then [] # split sep cs
      else (c # hd (split sep cs)) # tl (split sep cs))"

text \<open>
  Truthiness of \<open>string | null\<close>: \<open>null\<close> and the empty string are falsy.
  \<open>a || b\<close> yields \<open>a\<close> when it is truthy and \<open>b\<close> otherwise.
\<close>

definition truthy :: "jsstring option \<Rightarrow> bool" where
  "truthy v \<longleftrightarrow> (case v of None \<Rightarrow> False | Some s \<Rightarrow> s \<noteq> [])"

definition orElse :: "jsstring option \<Rightarrow> jsstring option \<Rightarrow> jsstring option" where
  "orElse a b = (if truthy a then a else b)"

text \<open>
  \<open>Math.ceil(a / b)\<close> for integers \<open>a\<close> and a positive integer \<open>b\<close>. The source divides
  IEEE-754 doubles; for the millisecond timestamps of \<open>Date.now()\<close> (below \<open>2^52\<close>)
  the rounded quotient has the same ceiling as the exact one.
\<close>

definition ceilDiv :: "int \<Rightarrow> int \<Rightarrow> int" where
  "ceilDiv a b = - ((- a) div b)"

section \<open>Configuration (lib/config)\<close>

text \<open>
  Every function of the source starts with \<open>getConfig()\<close>; the model passes its result
  as the parameter \<open>config\<close>, with the fields that the modelled functions read.
  \<open>configTrustedHosts\<close> is how \<open>getConfig\<close> computes \<open>trustedHosts\<close> from the environment.
\<close>

record AppConfig =
  trustedHosts :: "jsstring list"
  cacheTtlSeconds :: int
  cacheMaxSize :: int
  nodeEnv :: jsstring
  enableCache :: bool
  enableRateLimiting :: bool

type_synonym env = "jsstring \<rightharpoonup> jsstring"

definition getOptionalEnvVar :: "env \<Rightarrow> jsstring \<Rightarrow> jsstring \<Rightarrow> jsstring" where
  "getOptionalEnvVar e key defaultValue = the (orElse (e key) (Some defaultValue))"

definition parseStringArray :: "jsstring \<Rightarrow> jsstring list \<Rightarrow> jsstring list" where
  "parseStringArray v defaultValue =
     (if v = [] then defaultValue
      else filter (\<lambda>item. item \<noteq> []) (map trim (split 0x2C v)))"

definition configTrustedHosts :: "env \<Rightarrow> jsstring list" where
  "configTrustedHosts e =
     parseStringArray
       (getOptionalEnvVar e (js ''TRUSTED_HOSTS'') (js ''localhost,localhost:3000''))
       [js ''localhost'', js ''localhost:3000'']"

definition isTrustedHost :: "AppConfig \<Rightarrow> jsstring \<Rightarrow> bool" where
  "isTrustedHost config host \<longleftrightarrow>
     list_ex (\<lambda>trustedHost. host = trustedHost \<or> endsWith host (js ''.'' @ trustedHost))
       (trustedHosts config)"

section \<open>Gating middleware (middleware.ts)\<close>

record RateLimitEntry =
  count :: int
  resetTime :: int
  lastRequest :: int
  blockedUntil :: "int option"

record TierConfig =
  maxRequests :: int
  windowMs :: int
  blockDuration :: int

datatype Tier = General | Api | Search

fun RATE_LIMIT_CONFIG :: "Tier \<Rightarrow> TierConfig" where
  "RATE_LIMIT_CONFIG General =
     \<lparr>maxRequests = 100, windowMs = 15 * 60 * 1000, blockDuration = 5 * 60 * 1000\<rparr>"
| "RATE_LIMIT_CONFIG Api =
     \<lparr>maxRequests = 50, windowMs = 5 * 60 * 1000, blockDuration = 10 * 60 * 1000\<rparr>"
| "RATE_LIMIT_CONFIG Search =
     \<lparr>maxRequests = 30, windowMs = 1 * 60 * 1000, blockDuration = 2 * 60 * 1000\<rparr>"

text \<open>
  A request as the middleware reads it: the path of \<open>nextUrl\<close>, the method
  (\<open>httpMethod\<close>, for \<open>request.method\<close>), and the
  headers (\<open>headers.get\<close> gives \<open>null\<close> for a missing header).
\<close>

record Request =
  pathname :: jsstring
  httpMethod :: jsstring
  headers :: "jsstring \<rightharpoonup> jsstring"

type_synonym rateLimitMap = "jsstring \<rightharpoonup> RateLimitEntry"

definition getClientIdentifier :: "Request \<Rightarrow> jsstring" where
  "getClientIdentifier request =
     (let forwarded = headers request (js ''x-forwarded-for'');
          realIp = headers request (js ''x-real-ip'');
          cfConnectingIp = headers request (js ''cf-connecting-ip'');
          ip = orElse (orElse (orElse cfConnectingIp realIp)
                 (if truthy forwarded then Some (trim (hd (split 0x2C (the forwarded)))) else None))
                 (Some (js ''unknown''));
          userAgent = orElse (headers request (js ''user-agent'')) (Some (js ''unknown''))
      in the ip @ js '':'' @ the userAgent)"

definition tierOfPath :: "jsstring \<Rightarrow> Tier" where
  "tierOfPath path =
     (if startsWith path (js ''/api/weather'') then Api
      else if includes_js path (js ''search'') \<or> includes_js path (js ''suggest'') then Search
      else General)"

definition getRateLimitConfig :: "Request \<Rightarrow> TierConfig" where
  "getRateLimitConfig request = RATE_LIMIT_CONFIG (tierOfPath (pathname request))"

record RateLimitResult =
  allowed :: bool
  retryAfter :: "int option"
  blockRemaining :: "int option"

text \<open>
  \<open>clientData?.blockedUntil && now < clientData.blockedUntil\<close>: an absent entry, an
  absent \<open>blockedUntil\<close> and the falsy number \<open>0\<close> all mean "not blocked".
\<close>

definition isBlocked :: "RateLimitEntry option \<Rightarrow> int \<Rightarrow> bool" where
  "isBlocked clientData now \<longleftrightarrow>
     (case clientData of None \<Rightarrow> False
      | Some e \<Rightarrow> (case blockedUntil e of None \<Rightarrow> False | Some b \<Rightarrow> b \<noteq> 0 \<and> now < b))"

text \<open>
  The body of \<open>checkRateLimit\<close> once the client key and the tier are known. \<open>now\<close> is the
  value of \<open>Date.now()\<close>; the returned map is \<open>rateLimitMap\<close> after the call.
\<close>

definition checkRateLimitFor ::
  "TierConfig \<Rightarrow> jsstring \<Rightarrow> int \<Rightarrow> rateLimitMap \<Rightarrow> RateLimitResult \<times> rateLimitMap" where
  "checkRateLimitFor rateLimitConfig clientId now m =
     (let clientData = m clientId in
      if isBlocked clientData now then
        (\<lparr>allowed = False, retryAfter = None,
          blockRemaining = Some (ceilDiv (the (blockedUntil (the clientData)) - now) 1000)\<rparr>, m)
      else if clientData = None \<or> now > resetTime (the clientData) then
        (\<lparr>allowed = True, retryAfter = None, blockRemaining = None\<rparr>,
         m(clientId \<mapsto> \<lparr>count = 1, resetTime = now + windowMs rateLimitConfig,
                          lastRequest = now, blockedUntil = None\<rparr>))
      else if count (the clientData) \<ge> maxRequests rateLimitConfig then
        (\<lparr>allowed = False,
          retryAfter = Some (ceilDiv (blockDuration rateLimitConfig) 1000),
          blockRemaining = None\<rparr>,
         m(clientId \<mapsto> (the clientData)\<lparr>blockedUntil := Some (now + blockDuration rateLimitConfig)\<rparr>))
      else
        (\<lparr>allowed = True, retryAfter = None, blockRemaining = None\<rparr>,
         m(clientId \<mapsto> (the clientData)\<lparr>count := count (the clientData) + 1,
                                          lastRequest := now\<rparr>)))"

definition checkRateLimit ::
  "AppConfig \<Rightarrow> Request \<Rightarrow> int \<Rightarrow> rateLimitMap \<Rightarrow> RateLimitResult \<times> rateLimitMap" where
  "checkRateLimit config request now m =
     (if \<not> enableRateLimiting config then
        (\<lparr>allowed = True, retryAfter = None, blockRemaining = None\<rparr>, m)
      else checkRateLimitFor (getRateLimitConfig request) (getClientIdentifier request) now m)"

text \<open>Successive checks of one client key under one tier, at the given times.\<close>

fun runChecks ::
  "TierConfig \<Rightarrow> jsstring \<Rightarrow> int list \<Rightarrow> rateLimitMap \<Rightarrow> RateLimitResult list \<times> rateLimitMap" where
  "runChecks cfg clientId [] m = ([], m)"
| "runChecks cfg clientId (t # ts) m =
     (let (r, m1) = checkRateLimitFor cfg clientId t m;
          (rs, m2) = runChecks cfg clientId ts m1
      in (r # rs, m2))"

text \<open>\<open>validateTrustedHost\<close>: a missing or empty \<open>Host\<close> header is refused before the lookup.\<close>

definition validateTrustedHost :: "AppConfig \<Rightarrow> Request \<Rightarrow> bool" where
  "validateTrustedHost config request =
     (let host = headers request (js ''host'') in
      if \<not> truthy host then False else isTrustedHost config (the host))"

definition suspiciousHeaders :: "jsstring list" where
  "suspiciousHeaders = [js ''x-forwarded-host'', js ''x-original-url'', js ''x-rewrite-url'']"

definition validateRequestHeaders :: "AppConfig \<Rightarrow> Request \<Rightarrow> bool" where
  "validateRequestHeaders config request =
     (if nodeEnv config = js ''development'' then True
      else \<not> list_ex (\<lambda>header. truthy (headers request header)) suspiciousHeaders)"

text \<open>
  The outcome of \<open>middleware\<close>: a response of its own (status and \<open>Retry-After\<close> header),
  or \<open>NextResponse.next()\<close>. The security and CORS headers added to the continuing
  response are not part of the model.
\<close>

datatype MiddlewareResult = Respond int "int option" | Continue

definition middleware ::
  "AppConfig \<Rightarrow> Request \<Rightarrow> int \<Rightarrow> rateLimitMap \<Rightarrow> MiddlewareResult \<times> rateLimitMap" where
  "middleware config request now m =
     (if \<not> validateTrustedHost config request then (Respond 403 None, m)
      else if \<not> validateRequestHeaders config request then (Respond 400 None, m)
      else if enableRateLimiting config then
        (let (rateLimitResult, m') = checkRateLimit config request now m in
         if \<not> allowed rateLimitResult then
           (Respond 429
              (if retryAfter rateLimitResult \<noteq> None \<and> retryAfter rateLimitResult \<noteq> Some 0
               then retryAfter rateLimitResult else None), m')
         else (Continue, m'))
      else (Continue, m))"

text \<open>
  \<open>config.matcher\<close>: the pattern
  \<^verbatim>\<open>/((?!api|_next/static|_next/image|favicon.ico|robots.txt|sitemap.xml).*)\<close>
  matched against the whole path. An element of an alternative is a literal character
  or the wildcard \<open>.\<close> (\<open>None\<close>), which matches any character but a line terminator.
\<close>

definition isLineTerminator :: "jschar \<Rightarrow> bool" where
  "isLineTerminator c \<longleftrightarrow> c = 0x0A \<or> c = 0x0D \<or> c = 0x2028 \<or> c = 0x2029"

fun matchesPrefix :: "jschar option list \<Rightarrow> jsstring \<Rightarrow> bool" where
  "matchesPrefix [] s = True"
| "matchesPrefix (p # ps) [] = False"
| "matchesPrefix (p # ps) (c # cs) =
     ((case p of None \<Rightarrow> \<not> isLineTerminator c | Some l \<Rightarrow> c = l) \<and> matchesPrefix ps cs)"

definition lit :: "string \<Rightarrow> jschar option list" where
  "lit s = map Some (js s)"

definition matcherExclusions :: "jschar option list list" where
  "matcherExclusions =
     [lit ''api'', lit ''_next/static'', lit ''_next/image'',
      lit ''favicon'' @ [None] @ lit ''ico'',
      lit ''robots'' @ [None] @ lit ''txt'',
      lit ''sitemap'' @ [None] @ lit ''xml'']"

definition matcher :: "jsstring \<Rightarrow> bool" where
  "matcher path =
     (case path of [] \<Rightarrow> False
      | c # rest \<Rightarrow> c = 0x2F \<and> \<not> list_ex (\<lambda>alt. matchesPrefix alt rest) matcherExclusions
                    \<and> list_all (\<lambda>d. \<not> isLineTerminator d) rest)"

text \<open>
  The framework runs \<open>middleware\<close> only for a path that \<open>matcher\<close> accepts; \<open>None\<close> means
  the request reaches its route without passing through the middleware.
\<close>

definition runMiddleware ::
  "AppConfig \<Rightarrow> Request \<Rightarrow> int \<Rightarrow> rateLimitMap \<Rightarrow> (MiddlewareResult \<times> rateLimitMap) option" where
  "runMiddleware config request now m =
     (if matcher (pathname request) then Some (middleware config request now m) else None)"

section \<open>Errors (lib/errors)\<close>

record ApiError =
  name :: jsstring
  message :: jsstring
  statusCode :: int
  isOperational :: bool
  code :: "jsstring option"
  externalService :: "jsstring option"
  externalStatusCode :: "int option"

definition newApiError :: "jsstring \<Rightarrow> int \<Rightarrow> bool \<Rightarrow> jsstring option \<Rightarrow> ApiError" where
  "newApiError msg status operational c =
     \<lparr>name = js ''Error'', message = msg, statusCode = status, isOperational = operational,
      code = c, externalService = None, externalStatusCode = None\<rparr>"

definition ValidationError :: "jsstring \<Rightarrow> ApiError" where
  "ValidationError msg =
     (newApiError msg 400 True (Some (js ''VALIDATION_ERROR'')))\<lparr>name := js ''ValidationError''\<rparr>"

definition NotFoundError :: "jsstring \<Rightarrow> ApiError" where
  "NotFoundError msg =
     (newApiError msg 404 True (Some (js ''NOT_FOUND'')))\<lparr>name := js ''NotFoundError''\<rparr>"

definition ExternalApiError :: "jsstring \<Rightarrow> jsstring \<Rightarrow> int option \<Rightarrow> ApiError" where
  "ExternalApiError msg service extStatus =
     (newApiError msg 502 True (Some (js ''EXTERNAL_API_ERROR'')))
       \<lparr>name := js ''ExternalApiError'', externalService := Some service,
        externalStatusCode := extStatus\<rparr>"

text \<open>
  A thrown value: an \<open>ApiError\<close> (or a subclass), another \<open>Error\<close> with its name and
  message, or a value that is no \<open>Error\<close>.
\<close>

datatype thrown = ApiErr ApiError | JsErr jsstring jsstring | NonError

definition handleError :: "thrown \<Rightarrow> ApiError" where
  "handleError error =
     (case error of
        ApiErr e \<Rightarrow> e
      | JsErr n msg \<Rightarrow>
          if includes_js msg (js ''fetch'') \<or> includes_js msg (js ''network'') then
            ExternalApiError (js ''Network error occurred while fetching weather data'')
              (js ''OpenWeather API'') None
          else if includes_js msg (js ''timeout'') \<or> includes_js msg (js ''abort'') then
            ExternalApiError (js ''Request timeout while fetching weather data'')
              (js ''OpenWeather API'') None
          else newApiError msg 500 True (Some (js ''INTERNAL_ERROR''))
      | NonError \<Rightarrow>
          newApiError (js ''An unexpected error occurred'') 500 True (Some (js ''UNKNOWN_ERROR'')))"

section \<open>Weather endpoint (app/api/weather/route.ts)\<close>

subsection \<open>validateCity\<close>

text \<open>
  The characters kept by \<open>city.replace(/[^a-zA-Z\s\-']/g, '')\<close>: \<open>a\<close>..\<open>z\<close>, \<open>A\<close>..\<open>Z\<close>,
  the \<open>\s\<close> class, the hyphen and the apostrophe.
\<close>

definition cityCharAllowed :: "jschar \<Rightarrow> bool" where
  "cityCharAllowed c \<longleftrightarrow>
     (0x61 \<le> c \<and> c \<le> 0x7A) \<or> (0x41 \<le> c \<and> c \<le> 0x5A) \<or> isWhiteSpace c \<or>
     c = 0x2D \<or> c = 0x27"

definition validateCity :: "jsstring \<Rightarrow> ApiError + unit" where
  "validateCity city =
     (if city = [] then
        Inl (ValidationError (js ''City parameter is required and must be a string''))
      else if length (trim city) = 0 then
        Inl (ValidationError (js ''City parameter cannot be empty''))
      else if length city > 100 then
        Inl (ValidationError (js ''City name is too long (max 100 characters)''))
      else
        (let sanitizedCity = filter cityCharAllowed city in
         if sanitizedCity \<noteq> city then
           Inl (ValidationError (js ''City name contains invalid characters''))
         else Inr ()))"

subsection \<open>The cache\<close>

text \<open>
  The \<open>Map\<close> holding the cache, in insertion order: \<open>set\<close> on a present key replaces the
  value in place, on an absent key appends; \<open>delete\<close> removes the key. Keys are distinct.
\<close>

record 'w CacheEntry =
  data :: 'w
  timestamp :: int

type_synonym 'w cache = "(jsstring \<times> 'w CacheEntry) list"

fun mapGet :: "('k \<times> 'v) list \<Rightarrow> 'k \<Rightarrow> 'v option" where
  "mapGet [] k = None"
| "mapGet ((k', v) # ps) k = (if k' = k then Some v else mapGet ps k)"

fun mapSet :: "('k \<times> 'v) list \<Rightarrow> 'k \<Rightarrow> 'v \<Rightarrow> ('k \<times> 'v) list" where
  "mapSet [] k v = [(k, v)]"
| "mapSet ((k', v') # ps) k v = (if k' = k then (k, v) # ps else (k', v') # mapSet ps k v)"

fun mapDelete :: "('k \<times> 'v) list \<Rightarrow> 'k \<Rightarrow> ('k \<times> 'v) list" where
  "mapDelete [] k = []"
| "mapDelete ((k', v) # ps) k = (if k' = k then ps else (k', v) # mapDelete ps k)"

definition getCachedData ::
  "AppConfig \<Rightarrow> jsstring \<Rightarrow> int \<Rightarrow> 'w cache \<Rightarrow> 'w option \<times> 'w cache" where
  "getCachedData config cacheKey now cache =
     (if \<not> enableCache config then (None, cache)
      else case mapGet cache cacheKey of
        None \<Rightarrow> (None, cache)
      | Some cached \<Rightarrow>
          (let cacheAge = now - timestamp cached;
               maxAge = cacheTtlSeconds config * 1000
           in if cacheAge > maxAge then (None, mapDelete cache cacheKey)
              else (Some (data cached), cache)))"

text \<open>
  The eviction loop \<open>for (i = 0; i < toRemove; i++) cache.delete(entries[i][0])\<close>, on the
  entries still to visit: reading past the end of \<open>entries\<close> gives \<open>undefined\<close>, and
  indexing that throws a \<open>TypeError\<close>.
\<close>

fun removeOldest :: "nat \<Rightarrow> 'w cache \<Rightarrow> 'w cache \<Rightarrow> thrown + 'w cache" where
  "removeOldest 0 entries cache = Inr cache"
| "removeOldest (Suc n) [] cache =
     Inl (JsErr (js ''TypeError'')
            (js ''Cannot read properties of undefined (reading '' @ [0x27, 0x30, 0x27] @ js '')''))"
| "removeOldest (Suc n) (e # entries) cache = removeOldest n entries (mapDelete cache (fst e))"

text \<open>
  \<open>Math.ceil(config.cacheMaxSize * 0.1)\<close>. The double nearest to \<open>0.1\<close> is
  \<open>0.1 * (1 + 2^-54)\<close>, so for an integer size below \<open>2^50\<close> the rounded product has
  the ceiling of the exact tenth; a result that is not positive runs the loop zero times.
\<close>

definition toRemoveCount :: "int \<Rightarrow> nat" where
  "toRemoveCount maxSize = nat (ceilDiv maxSize 10)"

definition setCachedData ::
  "AppConfig \<Rightarrow> jsstring \<Rightarrow> 'w \<Rightarrow> int \<Rightarrow> 'w cache \<Rightarrow> thrown + 'w cache" where
  "setCachedData config cacheKey d now cache =
     (if \<not> enableCache config then Inr cache
      else
        (case (if int (length cache) \<ge> cacheMaxSize config then
                 (let entries = sort_key (\<lambda>a. timestamp (snd a)) cache;
                      toRemove = toRemoveCount (cacheMaxSize config)
                  in removeOldest toRemove entries cache)
               else Inr cache) of
           Inl err \<Rightarrow> Inl err
         | Inr cache' \<Rightarrow> Inr (mapSet cache' cacheKey \<lparr>data = d, timestamp = now\<rparr>)))"

subsection \<open>fetchWeatherData\<close>

text \<open>
  What the outbound \<open>fetch\<close> does is an input of the model: it rejects with an error
  (name and message; the 10 second timer aborts it with the name \<open>AbortError\<close>) or
  resolves to a response with a status and a body. Reading the body as JSON throws, or
  gives a value that is no object (\<open>null\<close> included), or gives an object.
\<close>

datatype 'w JsonBody = JsonThrows jsstring jsstring | JsonNonObject | JsonObject 'w

datatype 'w FetchOutcome = FetchRejected jsstring jsstring | FetchResponse int "'w JsonBody"

fun digitsOf :: "nat \<Rightarrow> jsstring" where
  "digitsOf n =
     (if n < 10 then [of_nat (48 + n)] else digitsOf (n div 10) @ [of_nat (48 + n mod 10)])"

definition numToString :: "int \<Rightarrow> jsstring" where
  "numToString i = (if i < 0 then 0x2D # digitsOf (nat (- i)) else digitsOf (nat i))"

text \<open>The \<open>catch\<close> block of \<open>fetchWeatherData\<close>: an \<open>AbortError\<close> becomes a timeout error,
  anything else is thrown again.\<close>

definition fetchCatch :: "thrown \<Rightarrow> thrown" where
  "fetchCatch error =
     (case error of
        ApiErr e \<Rightarrow>
          if name e = js ''AbortError'' then
            ApiErr (ExternalApiError (js ''Request timeout while fetching weather data'')
                      (js ''OpenWeather API'') None)
          else error
      | JsErr n msg \<Rightarrow>
          if n = js ''AbortError'' then
            ApiErr (ExternalApiError (js ''Request timeout while fetching weather data'')
                      (js ''OpenWeather API'') None)
          else error
      | NonError \<Rightarrow> error)"

definition fetchWeatherData :: "jsstring \<Rightarrow> 'w FetchOutcome \<Rightarrow> thrown + 'w" where
  "fetchWeatherData city outcome =
     (case outcome of
        FetchRejected n msg \<Rightarrow> Inl (fetchCatch (JsErr n msg))
      | FetchResponse status body \<Rightarrow>
          if \<not> (200 \<le> status \<and> status \<le> 299) then
            (if status = 404 then
               Inl (fetchCatch (ApiErr (NotFoundError (js ''City '' @ [0x22] @ city @ [0x22] @ js '' not found''))))
             else if status = 401 then
               Inl (fetchCatch (ApiErr (ExternalApiError
                      (js ''Invalid API key for OpenWeather service'')
                      (js ''OpenWeather API'') (Some status))))
             else if status = 429 then
               Inl (fetchCatch (ApiErr (ExternalApiError
                      (js ''OpenWeather API rate limit exceeded'')
                      (js ''OpenWeather API'') (Some status))))
             else
               Inl (fetchCatch (ApiErr (ExternalApiError
                      (js ''OpenWeather API returned status '' @ numToString status)
                      (js ''OpenWeather API'') (Some status)))))
          else
            (case body of
               JsonThrows n msg \<Rightarrow> Inl (fetchCatch (JsErr n msg))
             | JsonNonObject \<Rightarrow>
                 Inl (fetchCatch (ApiErr (ExternalApiError
                        (js ''Invalid response format from OpenWeather API'')
                        (js ''OpenWeather API'') None)))
             | JsonObject w \<Rightarrow> Inr w))"

subsection \<open>The GET handler\<close>

datatype 'w ResponseBody = WeatherBody 'w | ErrorBody ApiError

record 'w HttpResponse =
  status :: int
  xCache :: "jsstring option"
  body :: "'w ResponseBody"

text \<open>
  \<open>toLowerCase\<close> on a validated city: its only cased characters are \<open>A\<close>..\<open>Z\<close>.
\<close>

definition toLowerCase :: "jsstring \<Rightarrow> jsstring" where
  "toLowerCase s = map (\<lambda>c. if 0x41 \<le> c \<and> c \<le> 0x5A then c + 0x20 else c) s"

definition errorResponse :: "ApiError \<Rightarrow> 'w HttpResponse" where
  "errorResponse e = \<lparr>status = statusCode e, xCache = None, body = ErrorBody e\<rparr>"

text \<open>
  \<open>GET\<close>, given the method, the \<open>city\<close> query parameter, the clock at the cache lookup
  (\<open>now1\<close>) and at the cache store (\<open>now2\<close>), and what the upstream call does when it is
  made. It returns the response and the cache after the call. (A \<open>setCachedData\<close> that
  threw would leave its deletions behind; by \<open>setCachedData_total\<close> below it does not
  throw.)
\<close>

definition GET ::
  "AppConfig \<Rightarrow> jsstring \<Rightarrow> jsstring option \<Rightarrow> int \<Rightarrow> 'w FetchOutcome \<Rightarrow> int \<Rightarrow> 'w cache
     \<Rightarrow> 'w HttpResponse \<times> 'w cache" where
  "GET config meth city now1 outcome now2 cache =
     (if meth \<noteq> js ''GET'' then
        (\<lparr>status = 405, xCache = None,
          body = ErrorBody (ValidationError (js ''Method not allowed''))\<rparr>, cache)
      else
        (case validateCity (the (orElse city (Some []))) of
           Inl e \<Rightarrow> (errorResponse e, cache)
         | Inr _ \<Rightarrow>
             (let cacheKey = js ''weather:'' @ toLowerCase (the city);
                  (cachedData, cache1) = getCachedData config cacheKey now1 cache
              in case cachedData of
                   Some d \<Rightarrow> (\<lparr>status = 200, xCache = Some (js ''HIT''), body = WeatherBody d\<rparr>, cache1)
                 | None \<Rightarrow>
                     (case fetchWeatherData (the city) outcome of
                        Inl err \<Rightarrow> (errorResponse (handleError err), cache1)
                      | Inr weatherData \<Rightarrow>
                          (case setCachedData config cacheKey weatherData now2 cache1 of
                             Inl err \<Rightarrow> (errorResponse (handleError err), cache1)
                           | Inr cache2 \<Rightarrow>
                               (\<lparr>status = 200, xCache = Some (js ''MISS''),
                                 body = WeatherBody weatherData\<rparr>, cache2))))))"

section \<open>Arithmetic and string facts\<close>

lemma ceilDiv_exact: "b dvd a \<Longrightarrow> ceilDiv a b = a div b"
  by (simp add: ceilDiv_def dvd_neg_div)

lemma ceilDiv_ceiling: "ceilDiv a b = \<lceil>real_of_int a / real_of_int b\<rceil>"
  by (simp add: ceilDiv_def ceiling_divide_eq_div)

lemma startsWith_iff: "startsWith s p \<longleftrightarrow> (\<exists>r. s = p @ r)"
  unfolding startsWith_def by (metis append_eq_conv_conj append_take_drop_id)

lemma endsWith_iff: "endsWith s p \<longleftrightarrow> (\<exists>r. s = r @ p)"
proof
  assume "endsWith s p"
  then have "s = take (length s - length p) s @ p"
    unfolding endsWith_def by (metis append_take_drop_id)
  then show "\<exists>r. s = r @ p" ..
next
  assume "\<exists>r. s = r @ p"
  then show "endsWith s p" unfolding endsWith_def by auto
qed

lemma dropWhile_all: "(\<forall>x\<in>set (dropWhile P s). P x) \<longleftrightarrow> (\<forall>x\<in>set s. P x)"
  by (induction s) auto

lemma trim_empty_iff: "trim s = [] \<longleftrightarrow> (\<forall>c\<in>set s. isWhiteSpace c)"
  by (simp add: trim_def dropWhile_eq_Nil_conv dropWhile_all)

section \<open>The rate limiter\<close>

lemma checkRateLimit_enabled:
  "enableRateLimiting config \<Longrightarrow>
   checkRateLimit config request now m =
     checkRateLimitFor (RATE_LIMIT_CONFIG (tierOfPath (pathname request)))
       (getClientIdentifier request) now m"
  by (simp add: checkRateLimit_def getRateLimitConfig_def)

lemma check_other_key:
  "k' \<noteq> k \<Longrightarrow> snd (checkRateLimitFor cfg k' now m) k = m k"
  by (simp add: checkRateLimitFor_def Let_def)

lemma foldl_latest: "foldl (\<lambda>_ t. t) a ts = last (a # ts)"
  by (induction ts arbitrary: a) simp_all

lemma run_in_window_aux:
  "m k = Some e \<Longrightarrow> blockedUntil e = None \<Longrightarrow>
   count e + int (length ts) \<le> maxRequests cfg \<Longrightarrow> \<forall>t\<in>set ts. t \<le> resetTime e \<Longrightarrow>
   runChecks cfg k ts m =
     (replicate (length ts) \<lparr>allowed = True, retryAfter = None, blockRemaining = None\<rparr>,
      m(k \<mapsto> e\<lparr>count := count e + int (length ts),
                lastRequest := foldl (\<lambda>_ t. t) (lastRequest e) ts\<rparr>))"
proof (induction ts arbitrary: m e)
  case Nil
  then show ?case by (simp add: map_upd_triv)
next
  case (Cons t ts)
  let ?e1 = "e\<lparr>count := count e + 1, lastRequest := t\<rparr>"
  have step: "checkRateLimitFor cfg k t m =
      (\<lparr>allowed = True, retryAfter = None, blockRemaining = None\<rparr>, m(k \<mapsto> ?e1))"
    using Cons.prems by (simp add: checkRateLimitFor_def isBlocked_def)
  have "runChecks cfg k ts (m(k \<mapsto> ?e1)) =
     (replicate (length ts) \<lparr>allowed = True, retryAfter = None, blockRemaining = None\<rparr>,
      (m(k \<mapsto> ?e1))(k \<mapsto> ?e1\<lparr>count := count ?e1 + int (length ts),
          lastRequest := foldl (\<lambda>_ t. t) (lastRequest ?e1) ts\<rparr>))"
    using Cons.prems by (intro Cons.IH) auto
  then show ?case by (simp add: step add.assoc) (simp add: fun_upd_def)
qed

lemma run_in_window:
  "m k = Some e \<Longrightarrow> blockedUntil e = None \<Longrightarrow>
   count e + int (length ts) \<le> maxRequests cfg \<Longrightarrow> \<forall>t\<in>set ts. t \<le> resetTime e \<Longrightarrow>
   runChecks cfg k ts m =
     (replicate (length ts) \<lparr>allowed = True, retryAfter = None, blockRemaining = None\<rparr>,
      m(k \<mapsto> e\<lparr>count := count e + int (length ts), lastRequest := last (lastRequest e # ts)\<rparr>))"
  using run_in_window_aux [of m k e ts cfg] by (simp only: foldl_latest)

lemma check_opens_window:
  "\<not> isBlocked (m k) t0 \<Longrightarrow> m k = None \<or> resetTime (the (m k)) < t0 \<Longrightarrow>
   checkRateLimitFor cfg k t0 m =
     (\<lparr>allowed = True, retryAfter = None, blockRemaining = None\<rparr>,
      m(k \<mapsto> \<lparr>count = 1, resetTime = t0 + windowMs cfg, lastRequest = t0, blockedUntil = None\<rparr>))"
  by (auto simp: checkRateLimitFor_def)

lemma run_fresh_window:
  assumes "\<not> isBlocked (m k) t0" and "m k = None \<or> resetTime (the (m k)) < t0"
    and "1 + int (length ts) \<le> maxRequests cfg"
    and "\<forall>t\<in>set ts. t \<le> t0 + windowMs cfg"
  shows "runChecks cfg k (t0 # ts) m =
     (replicate (Suc (length ts)) \<lparr>allowed = True, retryAfter = None, blockRemaining = None\<rparr>,
      m(k \<mapsto> \<lparr>count = 1 + int (length ts), resetTime = t0 + windowMs cfg,
                lastRequest = last (t0 # ts), blockedUntil = None\<rparr>))"
proof -
  let ?e = "\<lparr>count = 1, resetTime = t0 + windowMs cfg, lastRequest = t0, blockedUntil = None\<rparr>"
  have rest: "runChecks cfg k ts (m(k \<mapsto> ?e)) =
     (replicate (length ts) \<lparr>allowed = True, retryAfter = None, blockRemaining = None\<rparr>,
      (m(k \<mapsto> ?e))(k \<mapsto> ?e\<lparr>count := count ?e + int (length ts),
                              lastRequest := last (lastRequest ?e # ts)\<rparr>))"
    using assms(3,4) by (intro run_in_window) auto
  have first: "checkRateLimitFor cfg k t0 m =
     (\<lparr>allowed = True, retryAfter = None, blockRemaining = None\<rparr>, m(k \<mapsto> ?e))"
    using check_opens_window [of m k t0 cfg] assms(1,2) by simp
  show ?thesis
    using rest by (simp add: first del: last.simps)
qed

lemma check_at_limit:
  "m k = Some e \<Longrightarrow> \<not> isBlocked (Some e) now \<Longrightarrow> now \<le> resetTime e \<Longrightarrow>
   maxRequests cfg \<le> count e \<Longrightarrow>
   checkRateLimitFor cfg k now m =
     (\<lparr>allowed = False, retryAfter = Some (ceilDiv (blockDuration cfg) 1000), blockRemaining = None\<rparr>,
      m(k \<mapsto> e\<lparr>blockedUntil := Some (now + blockDuration cfg)\<rparr>))"
  by (auto simp: checkRateLimitFor_def)

lemma denied_in_window:
  "m k = Some e \<Longrightarrow> maxRequests cfg \<le> count e \<Longrightarrow> \<forall>t\<in>set ts. t \<le> resetTime e \<Longrightarrow>
   list_all (\<lambda>r. \<not> allowed r) (fst (runChecks cfg k ts m)) \<and>
   (\<exists>e'. snd (runChecks cfg k ts m) k = Some e' \<and> count e' = count e \<and> resetTime e' = resetTime e)"
proof (induction ts arbitrary: m e)
  case Nil
  then show ?case by simp
next
  case (Cons t ts)
  obtain r m1 where step: "checkRateLimitFor cfg k t m = (r, m1)" by force
  have r: "\<not> allowed r"
    and "\<exists>e1. m1 k = Some e1 \<and> count e1 = count e \<and> resetTime e1 = resetTime e"
    using Cons.prems step by (auto simp: checkRateLimitFor_def Let_def split: if_splits)
  then obtain e1 where e1: "m1 k = Some e1" "count e1 = count e" "resetTime e1 = resetTime e"
    by blast
  have "list_all (\<lambda>r. \<not> allowed r) (fst (runChecks cfg k ts m1)) \<and>
   (\<exists>e'. snd (runChecks cfg k ts m1) k = Some e' \<and> count e' = count e1 \<and>
         resetTime e' = resetTime e1)"
    using Cons.prems e1 by (intro Cons.IH) auto
  then show ?case using r e1 step by (simp add: split_beta)
qed

text \<open>
  In the general tier, 100 checks at time 0 from an empty map are allowed and the 101st,
  at a time \<open>t1\<close> inside the window, blocks the key until \<open>t1 + 300000\<close>.
\<close>

lemma general_tier_block_state:
  "snd (checkRateLimitFor (RATE_LIMIT_CONFIG General) k t1
         (snd (runChecks (RATE_LIMIT_CONFIG General) k (0 # replicate 99 0) Map.empty))) =
   [k \<mapsto> \<lparr>count = 100, resetTime = 900000, lastRequest = 0, blockedUntil = Some (t1 + 300000)\<rparr>]"
  if "t1 \<le> 900000"
proof -
  have run: "runChecks (RATE_LIMIT_CONFIG General) k (0 # replicate 99 0) Map.empty =
     (replicate (Suc (length (replicate 99 (0::int))))
        \<lparr>allowed = True, retryAfter = None, blockRemaining = None\<rparr>,
      [k \<mapsto> \<lparr>count = 1 + int (length (replicate 99 (0::int))),
              resetTime = 0 + windowMs (RATE_LIMIT_CONFIG General),
              lastRequest = last (0 # replicate 99 0), blockedUntil = None\<rparr>])"
    by (rule run_fresh_window) (simp_all add: isBlocked_def)
  show ?thesis
    unfolding run using that
    by (simp add: checkRateLimitFor_def isBlocked_def)
qed

text \<open>
  Claim C2. For every client key and every tier: when a check opens a window (no entry,
  or an entry whose window has expired, and not blocked) and the following checks fall
  within that window, the first \<open>maxRequests\<close> checks are all allowed, and the next check
  within the window is denied, sets \<open>blockedUntil\<close> to \<open>now + blockDuration\<close> and carries
  \<open>retryAfter = blockDuration / 1000\<close>, which is a whole number for each tier.
\<close>

theorem blocked_after_maxRequests:
  assumes "\<not> isBlocked (m key) t0" and "m key = None \<or> resetTime (the (m key)) < t0"
    and "1 + int (length ts) = maxRequests (RATE_LIMIT_CONFIG tier)"
    and "\<forall>t\<in>set ts. t \<le> t0 + windowMs (RATE_LIMIT_CONFIG tier)"
    and "now \<le> t0 + windowMs (RATE_LIMIT_CONFIG tier)"
  shows "fst (runChecks (RATE_LIMIT_CONFIG tier) key (t0 # ts) m) =
           replicate (nat (maxRequests (RATE_LIMIT_CONFIG tier)))
             \<lparr>allowed = True, retryAfter = None, blockRemaining = None\<rparr> \<and>
         checkRateLimitFor (RATE_LIMIT_CONFIG tier) key now
             (snd (runChecks (RATE_LIMIT_CONFIG tier) key (t0 # ts) m)) =
           (\<lparr>allowed = False,
             retryAfter = Some (blockDuration (RATE_LIMIT_CONFIG tier) div 1000),
             blockRemaining = None\<rparr>,
            m(key \<mapsto> \<lparr>count = maxRequests (RATE_LIMIT_CONFIG tier),
                        resetTime = t0 + windowMs (RATE_LIMIT_CONFIG tier),
                        lastRequest = last (t0 # ts),
                        blockedUntil = Some (now + blockDuration (RATE_LIMIT_CONFIG tier))\<rparr>)) \<and>
         real_of_int (blockDuration (RATE_LIMIT_CONFIG tier) div 1000) =
           real_of_int (blockDuration (RATE_LIMIT_CONFIG tier)) / 1000"
proof -
  let ?cfg = "RATE_LIMIT_CONFIG tier"
  let ?e = "\<lparr>count = maxRequests ?cfg, resetTime = t0 + windowMs ?cfg,
             lastRequest = last (t0 # ts), blockedUntil = None\<rparr>"
  have dvd: "1000 dvd blockDuration ?cfg" by (cases tier) simp_all
  have run: "runChecks ?cfg key (t0 # ts) m =
     (replicate (Suc (length ts)) \<lparr>allowed = True, retryAfter = None, blockRemaining = None\<rparr>,
      m(key \<mapsto> ?e))"
    using run_fresh_window [of m key t0 ts ?cfg] assms(1-4) by simp
  have n: "nat (maxRequests ?cfg) = Suc (length ts)" using assms(3) by simp
  have "checkRateLimitFor ?cfg key now (m(key \<mapsto> ?e)) =
     (\<lparr>allowed = False, retryAfter = Some (ceilDiv (blockDuration ?cfg) 1000), blockRemaining = None\<rparr>,
      (m(key \<mapsto> ?e))(key \<mapsto> ?e\<lparr>blockedUntil := Some (now + blockDuration ?cfg)\<rparr>))"
    using assms(5) by (intro check_at_limit) (simp_all add: isBlocked_def)
  then have last: "checkRateLimitFor ?cfg key now (m(key \<mapsto> ?e)) =
     (\<lparr>allowed = False, retryAfter = Some (blockDuration ?cfg div 1000), blockRemaining = None\<rparr>,
      m(key \<mapsto> ?e\<lparr>blockedUntil := Some (now + blockDuration ?cfg)\<rparr>))"
    by (simp add: ceilDiv_exact [OF dvd])
  have exact: "real_of_int (blockDuration ?cfg div 1000) = real_of_int (blockDuration ?cfg) / 1000"
    using dvd by (simp add: real_of_int_div)
  show ?thesis
    unfolding run n using last exact by (simp del: last.simps)
qed

text \<open>
  The search tier at a fresh key: 30 checks inside the one-minute window, then the 31st
  at 59999 ms is denied with \<open>retryAfter = 120\<close> and a block until 179999.
\<close>

theorem blocked_after_maxRequests_witness:
  "checkRateLimitFor (RATE_LIMIT_CONFIG Search) (js ''10.0.0.7:curl'') 59999
     (snd (runChecks (RATE_LIMIT_CONFIG Search) (js ''10.0.0.7:curl'') (0 # replicate 29 1000) Map.empty)) =
   (\<lparr>allowed = False, retryAfter = Some 120, blockRemaining = None\<rparr>,
    [js ''10.0.0.7:curl'' \<mapsto>
       \<lparr>count = 30, resetTime = 60000, lastRequest = 1000, blockedUntil = Some 179999\<rparr>])"
  using blocked_after_maxRequests
          [of Map.empty "js ''10.0.0.7:curl''" 0 "replicate 29 1000" Search 59999]
  by (simp add: isBlocked_def)

text \<open>
  Claim C3, as amended. For a key whose entry has \<open>blockedUntil\<close> set (to a truthy number
  \<open>b\<close>) and for every tier: a check at \<open>now < b\<close> is denied with
  \<open>blockRemaining = ceil ((b - now) / 1000)\<close> and leaves the map unchanged; a check at
  \<open>now \<ge> b\<close> is treated as Fresh (entry reset to \<open>count = 1\<close> with a new window, request
  allowed) when the window has expired as well, \<open>now > resetTime\<close>; while the window is
  still open, \<open>now \<le> resetTime\<close>, the entry is not reset: the check is denied and the key
  blocked again if \<open>count \<ge> maxRequests\<close>, and otherwise allowed with the count
  incremented in the same window.
\<close>

theorem blocked_entry_check_amended:
  assumes "m key = Some e" and "blockedUntil e = Some b" and "b \<noteq> 0"
  shows "(now < b \<longrightarrow>
            checkRateLimitFor cfg key now m =
              (\<lparr>allowed = False, retryAfter = None,
                blockRemaining = Some \<lceil>real_of_int (b - now) / 1000\<rceil>\<rparr>, m)) \<and>
         (b \<le> now \<and> resetTime e < now \<longrightarrow>
            checkRateLimitFor cfg key now m =
              (\<lparr>allowed = True, retryAfter = None, blockRemaining = None\<rparr>,
               m(key \<mapsto> \<lparr>count = 1, resetTime = now + windowMs cfg,
                           lastRequest = now, blockedUntil = None\<rparr>))) \<and>
         (b \<le> now \<and> now \<le> resetTime e \<and> maxRequests cfg \<le> count e \<longrightarrow>
            checkRateLimitFor cfg key now m =
              (\<lparr>allowed = False,
                retryAfter = Some \<lceil>real_of_int (blockDuration cfg) / 1000\<rceil>,
                blockRemaining = None\<rparr>,
               m(key \<mapsto> e\<lparr>blockedUntil := Some (now + blockDuration cfg)\<rparr>))) \<and>
         (b \<le> now \<and> now \<le> resetTime e \<and> count e < maxRequests cfg \<longrightarrow>
            checkRateLimitFor cfg key now m =
              (\<lparr>allowed = True, retryAfter = None, blockRemaining = None\<rparr>,
               m(key \<mapsto> e\<lparr>count := count e + 1, lastRequest := now\<rparr>)))"
proof -
  have c: "ceilDiv (b - now) 1000 = \<lceil>real_of_int (b - now) / 1000\<rceil>"
    using ceilDiv_ceiling [of "b - now" 1000] by simp
  have c': "ceilDiv (blockDuration cfg) 1000 = \<lceil>real_of_int (blockDuration cfg) / 1000\<rceil>"
    using ceilDiv_ceiling [of "blockDuration cfg" 1000] by simp
  have blocked: "now < b \<longrightarrow>
            checkRateLimitFor cfg key now m =
              (\<lparr>allowed = False, retryAfter = None,
                blockRemaining = Some \<lceil>real_of_int (b - now) / 1000\<rceil>\<rparr>, m)"
    using assms c by (simp add: checkRateLimitFor_def isBlocked_def)
  have fresh: "b \<le> now \<and> resetTime e < now \<longrightarrow>
            checkRateLimitFor cfg key now m =
              (\<lparr>allowed = True, retryAfter = None, blockRemaining = None\<rparr>,
               m(key \<mapsto> \<lparr>count = 1, resetTime = now + windowMs cfg,
                           lastRequest = now, blockedUntil = None\<rparr>))"
    using assms by (simp add: checkRateLimitFor_def isBlocked_def)
  have again: "b \<le> now \<and> now \<le> resetTime e \<and> maxRequests cfg \<le> count e \<longrightarrow>
            checkRateLimitFor cfg key now m =
              (\<lparr>allowed = False,
                retryAfter = Some \<lceil>real_of_int (blockDuration cfg) / 1000\<rceil>,
                blockRemaining = None\<rparr>,
               m(key \<mapsto> e\<lparr>blockedUntil := Some (now + blockDuration cfg)\<rparr>))"
    using assms c' by (simp add: checkRateLimitFor_def isBlocked_def)
  have counted: "b \<le> now \<and> now \<le> resetTime e \<and> count e < maxRequests cfg \<longrightarrow>
            checkRateLimitFor cfg key now m =
              (\<lparr>allowed = True, retryAfter = None, blockRemaining = None\<rparr>,
               m(key \<mapsto> e\<lparr>count := count e + 1, lastRequest := now\<rparr>))"
    using assms by (simp add: checkRateLimitFor_def isBlocked_def)
  from blocked fresh again counted show ?thesis by (intro conjI)
qed

text \<open>
  An api-tier entry blocked until 600001: the check at 500000 is denied with 101 seconds
  remaining, the check at 600001, after the window's end at 300000, resets the entry.
\<close>

theorem blocked_entry_check_amended_witness:
  "checkRateLimitFor (RATE_LIMIT_CONFIG Api) (js ''k'') 500000
      [js ''k'' \<mapsto> \<lparr>count = 50, resetTime = 300000, lastRequest = 1, blockedUntil = Some 600001\<rparr>] =
   (\<lparr>allowed = False, retryAfter = None, blockRemaining = Some 101\<rparr>,
      [js ''k'' \<mapsto> \<lparr>count = 50, resetTime = 300000, lastRequest = 1, blockedUntil = Some 600001\<rparr>]) \<and>
   checkRateLimitFor (RATE_LIMIT_CONFIG Api) (js ''k'') 600001
      [js ''k'' \<mapsto> \<lparr>count = 50, resetTime = 300000, lastRequest = 1, blockedUntil = Some 600001\<rparr>] =
   (\<lparr>allowed = True, retryAfter = None, blockRemaining = None\<rparr>,
      [js ''k'' \<mapsto> \<lparr>count = 1, resetTime = 900001, lastRequest = 600001, blockedUntil = None\<rparr>])"
  using blocked_entry_check_amended
      [of "[js ''k'' \<mapsto> \<lparr>count = 50, resetTime = 300000, lastRequest = 1, blockedUntil = Some 600001\<rparr>]"
      "js ''k''" "\<lparr>count = 50, resetTime = 300000, lastRequest = 1, blockedUntil = Some 600001\<rparr>" 600001
      500000 "RATE_LIMIT_CONFIG Api"]
    blocked_entry_check_amended
      [of "[js ''k'' \<mapsto> \<lparr>count = 50, resetTime = 300000, lastRequest = 1, blockedUntil = Some 600001\<rparr>]"
      "js ''k''" "\<lparr>count = 50, resetTime = 300000, lastRequest = 1, blockedUntil = Some 600001\<rparr>" 600001
      600001 "RATE_LIMIT_CONFIG Api"]
  by simp

text \<open>
  The window need not have been opened under the tier of the check. One client sends 30
  requests for \<open>/\<close> at time 0 (general tier, window until 900000) and then requests
  \<open>/search\<close>: the check at 1000 is denied, since the count 30 has reached the search
  tier's limit, and blocks the key until 121000; the check at 121000 is inside the
  window and is denied again, with the block moved to 241000.
\<close>

lemma search_check_in_general_window:
  "checkRateLimitFor (RATE_LIMIT_CONFIG Search) k 121000
     (snd (checkRateLimitFor (RATE_LIMIT_CONFIG Search) k 1000
        (snd (runChecks (RATE_LIMIT_CONFIG General) k (0 # replicate 29 0) Map.empty)))) =
   (\<lparr>allowed = False, retryAfter = Some 120, blockRemaining = None\<rparr>,
    [k \<mapsto> \<lparr>count = 30, resetTime = 900000, lastRequest = 0, blockedUntil = Some 241000\<rparr>])"
proof -
  have run: "runChecks (RATE_LIMIT_CONFIG General) k (0 # replicate 29 0) Map.empty =
     (replicate (Suc (length (replicate 29 (0::int))))
        \<lparr>allowed = True, retryAfter = None, blockRemaining = None\<rparr>,
      [k \<mapsto> \<lparr>count = 1 + int (length (replicate 29 (0::int))),
              resetTime = 0 + windowMs (RATE_LIMIT_CONFIG General),
              lastRequest = last (0 # replicate 29 0), blockedUntil = None\<rparr>])"
    by (rule run_fresh_window) (simp_all add: isBlocked_def)
  show ?thesis
    unfolding run by (simp add: checkRateLimitFor_def isBlocked_def ceilDiv_def)
qed

text \<open>
  Claim C3 as stated fails in the general tier. After 100 allowed checks at time 0 the
  101st check, at 1000 ms, sets \<open>blockedUntil = 301000\<close>; the first check at
  \<open>now = 301000 \<ge> blockedUntil\<close> is inside the 15 minute window and is denied, not
  treated as Fresh.
\<close>

theorem blocked_expiry_not_fresh_counterexample:
  "blockedUntil (the (snd (checkRateLimitFor (RATE_LIMIT_CONFIG General) (js ''10.0.0.7:curl'') 1000
        (snd (runChecks (RATE_LIMIT_CONFIG General) (js ''10.0.0.7:curl'') (0 # replicate 99 0) Map.empty)))
      (js ''10.0.0.7:curl''))) = Some 301000 \<and>
   \<not> allowed (fst (checkRateLimitFor (RATE_LIMIT_CONFIG General) (js ''10.0.0.7:curl'') 301000
     (snd (checkRateLimitFor (RATE_LIMIT_CONFIG General) (js ''10.0.0.7:curl'') 1000
        (snd (runChecks (RATE_LIMIT_CONFIG General) (js ''10.0.0.7:curl'') (0 # replicate 99 0) Map.empty))))))"
proof -
  have st: "snd (checkRateLimitFor (RATE_LIMIT_CONFIG General) (js ''10.0.0.7:curl'') 1000
        (snd (runChecks (RATE_LIMIT_CONFIG General) (js ''10.0.0.7:curl'') (0 # replicate 99 0) Map.empty))) =
      [js ''10.0.0.7:curl'' \<mapsto>
       \<lparr>count = 100, resetTime = 900000, lastRequest = 0, blockedUntil = Some (1000 + 300000)\<rparr>]"
    by (rule general_tier_block_state) simp
  show ?thesis
    unfolding st by (simp add: checkRateLimitFor_def isBlocked_def)
qed

text \<open>
  Claim C9. For a key whose block has expired (\<open>now \<ge> blockedUntil\<close>) while its window has
  not (\<open>now \<le> resetTime\<close>) and whose count has reached \<open>maxRequests\<close>: the check is denied
  again and \<open>blockedUntil\<close> is overwritten with \<open>now + blockDuration\<close>; every further check
  up to \<open>resetTime\<close> is denied as well.
\<close>

theorem reblocked_within_window:
  assumes "m key = Some e" and "blockedUntil e = Some b" and "b \<le> now"
    and "now \<le> resetTime e" and "maxRequests cfg \<le> count e"
  shows "checkRateLimitFor cfg key now m =
           (\<lparr>allowed = False, retryAfter = Some \<lceil>real_of_int (blockDuration cfg) / 1000\<rceil>,
             blockRemaining = None\<rparr>,
            m(key \<mapsto> e\<lparr>blockedUntil := Some (now + blockDuration cfg)\<rparr>)) \<and>
         (\<forall>ts. (\<forall>t\<in>set ts. t \<le> resetTime e) \<longrightarrow>
               list_all (\<lambda>r. \<not> allowed r) (fst (runChecks cfg key ts m)))"
proof -
  have c: "ceilDiv (blockDuration cfg) 1000 = \<lceil>real_of_int (blockDuration cfg) / 1000\<rceil>"
    using ceilDiv_ceiling [of "blockDuration cfg" 1000] by simp
  have "\<not> isBlocked (Some e) now" using assms(2,3) by (simp add: isBlocked_def)
  then have one: "checkRateLimitFor cfg key now m =
           (\<lparr>allowed = False, retryAfter = Some \<lceil>real_of_int (blockDuration cfg) / 1000\<rceil>,
             blockRemaining = None\<rparr>,
            m(key \<mapsto> e\<lparr>blockedUntil := Some (now + blockDuration cfg)\<rparr>))"
    using check_at_limit [of m key e now cfg] assms c by simp
  have "list_all (\<lambda>r. \<not> allowed r) (fst (runChecks cfg key ts m))"
    if "\<forall>t\<in>set ts. t \<le> resetTime e" for ts
    using denied_in_window [of m key e cfg ts] assms(1,5) that by simp
  with one show ?thesis by blast
qed

text \<open>
  The state is reached in the general tier: 100 allowed checks and a 101st at time 0
  block the key until 300000; the check at 300000, ten minutes before the window ends,
  is denied and moves the block to 600000.
\<close>

theorem reblocked_within_window_witness:
  "checkRateLimitFor (RATE_LIMIT_CONFIG General) (js ''10.0.0.7:curl'') 300000
     (snd (checkRateLimitFor (RATE_LIMIT_CONFIG General) (js ''10.0.0.7:curl'') 0
        (snd (runChecks (RATE_LIMIT_CONFIG General) (js ''10.0.0.7:curl'') (0 # replicate 99 0) Map.empty)))) =
   (\<lparr>allowed = False, retryAfter = Some 300, blockRemaining = None\<rparr>,
    [js ''10.0.0.7:curl'' \<mapsto>
       \<lparr>count = 100, resetTime = 900000, lastRequest = 0, blockedUntil = Some 600000\<rparr>])"
proof -
  have st: "snd (checkRateLimitFor (RATE_LIMIT_CONFIG General) (js ''10.0.0.7:curl'') 0
        (snd (runChecks (RATE_LIMIT_CONFIG General) (js ''10.0.0.7:curl'') (0 # replicate 99 0) Map.empty))) =
      [js ''10.0.0.7:curl'' \<mapsto>
       \<lparr>count = 100, resetTime = 900000, lastRequest = 0, blockedUntil = Some (0 + 300000)\<rparr>]"
    by (rule general_tier_block_state) simp
  show ?thesis
    unfolding st
    using reblocked_within_window [of "[js ''10.0.0.7:curl'' \<mapsto>
       \<lparr>count = 100, resetTime = 900000, lastRequest = 0, blockedUntil = Some 300000\<rparr>]"
     "js ''10.0.0.7:curl''"
     "\<lparr>count = 100, resetTime = 900000, lastRequest = 0, blockedUntil = Some 300000\<rparr>"
     300000 300000 "RATE_LIMIT_CONFIG General"]
    by simp
qed


section \<open>The middleware matcher\<close>

lemma matchesPrefix_lit: "matchesPrefix (map Some p) (p @ r)"
  by (induction p) simp_all

lemma matcher_excludes_api: "startsWith path (js ''/api'') \<Longrightarrow> \<not> matcher path"
proof -
  assume "startsWith path (js ''/api'')"
  then obtain r where "path = js ''/api'' @ r" unfolding startsWith_iff by blast
  then have p: "path = 0x2F # (js ''api'' @ r)" by (simp add: js_def)
  have "matchesPrefix (lit ''api'') (js ''api'' @ r)"
    unfolding lit_def by (rule matchesPrefix_lit)
  then show "\<not> matcher path"
    unfolding p by (simp add: matcher_def matcherExclusions_def)
qed

lemma matcher_examples:
  "matcher (js ''/'') \<and> matcher (js ''/search'') \<and> \<not> matcher (js ''/favicon.ico'')"
  by (simp add: matcher_def matcherExclusions_def js_def lit_def isLineTerminator_def)

text \<open>
  Claim C1 does not hold of the code. For every request whose path starts with
  \<open>/api/weather\<close>, \<open>getRateLimitConfig\<close> selects the api tier, but \<open>matcher\<close> rejects the
  path (its first alternative excludes everything under \<open>/api\<close>), so the middleware is
  not run and the request is never rate-limited.
\<close>

theorem api_weather_excluded_from_middleware:
  assumes "startsWith (pathname request) (js ''/api/weather'')"
  shows "\<not> matcher (pathname request) \<and> runMiddleware config request now m = None \<and>
         getRateLimitConfig request = RATE_LIMIT_CONFIG Api"
proof -
  from assms obtain r where "pathname request = js ''/api/weather'' @ r"
    unfolding startsWith_iff by blast
  then have "pathname request = js ''/api'' @ (js ''/weather'' @ r)" by (simp add: js_def)
  then have "startsWith (pathname request) (js ''/api'')" unfolding startsWith_iff by blast
  then have "\<not> matcher (pathname request)" by (rule matcher_excludes_api)
  then show ?thesis
    using assms by (simp add: runMiddleware_def getRateLimitConfig_def tierOfPath_def)
qed

text \<open>The request \<open>GET /api/weather\<close> from a trusted host, with rate limiting enabled.\<close>

theorem api_weather_excluded_from_middleware_witness:
  "runMiddleware
     \<lparr>trustedHosts = [js ''localhost''], cacheTtlSeconds = 300, cacheMaxSize = 100,
      nodeEnv = js ''production'', enableCache = True, enableRateLimiting = True\<rparr>
     \<lparr>pathname = js ''/api/weather'', httpMethod = js ''GET'',
      headers = [js ''host'' \<mapsto> js ''localhost'']\<rparr> 0 Map.empty = None \<and>
   getRateLimitConfig
     \<lparr>pathname = js ''/api/weather'', httpMethod = js ''GET'',
      headers = [js ''host'' \<mapsto> js ''localhost'']\<rparr> =
     \<lparr>maxRequests = 50, windowMs = 300000, blockDuration = 600000\<rparr>"
  using api_weather_excluded_from_middleware
     [of "\<lparr>pathname = js ''/api/weather'', httpMethod = js ''GET'',
           headers = [js ''host'' \<mapsto> js ''localhost'']\<rparr>"
         "\<lparr>trustedHosts = [js ''localhost''], cacheTtlSeconds = 300, cacheMaxSize = 100,
           nodeEnv = js ''production'', enableCache = True, enableRateLimiting = True\<rparr>"
         0 Map.empty]
  by (simp add: startsWith_def)

section \<open>Trusted hosts\<close>

lemma parseStringArray_nonempty:
  "[] \<notin> set defaultValue \<Longrightarrow> [] \<notin> set (parseStringArray v defaultValue)"
  by (simp add: parseStringArray_def)

lemma configTrustedHosts_nonempty: "[] \<notin> set (configTrustedHosts e)"
  unfolding configTrustedHosts_def by (rule parseStringArray_nonempty) (simp add: js_def)

text \<open>
  Claim C5. \<open>isTrustedHost\<close> holds of a host exactly when the host equals a configured
  trusted host or is some prefix followed by \<open>.\<close> and that trusted host. So
  \<open>api.example.com\<close> is trusted when \<open>example.com\<close> is configured, \<open>evilexample.com\<close> is
  not trusted when only \<open>example.com\<close> is, and the empty host is never trusted: the
  trusted hosts read from the environment never contain the empty string, and
  \<open>validateTrustedHost\<close> refuses a missing or empty \<open>Host\<close> header.
\<close>

theorem isTrustedHost_iff:
  "(isTrustedHost config host \<longleftrightarrow>
      (\<exists>trustedHost \<in> set (trustedHosts config).
          host = trustedHost \<or> (\<exists>prefix. host = prefix @ js ''.'' @ trustedHost))) \<and>
   (js ''example.com'' \<in> set (trustedHosts config) \<longrightarrow>
      isTrustedHost config (js ''api.example.com'')) \<and>
   (trustedHosts config = [js ''example.com''] \<longrightarrow>
      \<not> isTrustedHost config (js ''evilexample.com'')) \<and>
   \<not> isTrustedHost (config\<lparr>trustedHosts := configTrustedHosts e\<rparr>) [] \<and>
   \<not> validateTrustedHost config (request\<lparr>headers := (headers request)(js ''host'' := None)\<rparr>) \<and>
   \<not> validateTrustedHost config (request\<lparr>headers := (headers request)(js ''host'' \<mapsto> [])\<rparr>)"
proof -
  have iff: "isTrustedHost config host \<longleftrightarrow>
      (\<exists>trustedHost \<in> set (trustedHosts config).
          host = trustedHost \<or> (\<exists>prefix. host = prefix @ js ''.'' @ trustedHost))" for config host
    by (simp add: isTrustedHost_def list_ex_iff endsWith_iff)
  have sub: "isTrustedHost config (js ''api.example.com'')"
    if "js ''example.com'' \<in> set (trustedHosts config)"
  proof -
    have "js ''api.example.com'' = js ''api'' @ js ''.'' @ js ''example.com''"
      by (simp add: js_def)
    then show ?thesis using that unfolding iff by blast
  qed
  have evil: "\<not> isTrustedHost config (js ''evilexample.com'')"
    if "trustedHosts config = [js ''example.com'']"
    using that by (simp add: isTrustedHost_def endsWith_def js_def)
  have empty: "\<not> isTrustedHost (config\<lparr>trustedHosts := configTrustedHosts e\<rparr>) []"
    using configTrustedHosts_nonempty [of e] by (auto simp: iff)
  have v1: "\<not> validateTrustedHost config (request\<lparr>headers := (headers request)(js ''host'' := None)\<rparr>)"
    by (simp add: validateTrustedHost_def truthy_def)
  have v2: "\<not> validateTrustedHost config (request\<lparr>headers := (headers request)(js ''host'' \<mapsto> [])\<rparr>)"
    by (simp add: validateTrustedHost_def truthy_def)
  show ?thesis using iff sub evil empty v1 v2 by blast
qed

theorem isTrustedHost_iff_witness:
  "isTrustedHost \<lparr>trustedHosts = [js ''localhost'', js ''example.com''], cacheTtlSeconds = 300,
       cacheMaxSize = 100, nodeEnv = js ''production'', enableCache = True,
       enableRateLimiting = True\<rparr> (js ''api.example.com'') \<and>
   \<not> isTrustedHost \<lparr>trustedHosts = [js ''example.com''], cacheTtlSeconds = 300,
       cacheMaxSize = 100, nodeEnv = js ''production'', enableCache = True,
       enableRateLimiting = True\<rparr> (js ''evilexample.com'')"
proof
  show "isTrustedHost \<lparr>trustedHosts = [js ''localhost'', js ''example.com''], cacheTtlSeconds = 300,
       cacheMaxSize = 100, nodeEnv = js ''production'', enableCache = True,
       enableRateLimiting = True\<rparr> (js ''api.example.com'')"
    by (rule isTrustedHost_iff [THEN conjunct2, THEN conjunct1, THEN mp]) simp
  show "\<not> isTrustedHost \<lparr>trustedHosts = [js ''example.com''], cacheTtlSeconds = 300,
       cacheMaxSize = 100, nodeEnv = js ''production'', enableCache = True,
       enableRateLimiting = True\<rparr> (js ''evilexample.com'')"
    by (rule isTrustedHost_iff [THEN conjunct2, THEN conjunct2, THEN conjunct1, THEN mp]) simp
qed


section \<open>The weather cache\<close>

lemma toRemoveCount_ceiling: "toRemoveCount maxSize = nat \<lceil>real_of_int maxSize * 0.1\<rceil>"
  using ceilDiv_ceiling [of maxSize 10] by (simp add: toRemoveCount_def)

lemma toRemoveCount_bounds:
  "1 \<le> maxSize \<Longrightarrow> 1 \<le> toRemoveCount maxSize \<and> int (toRemoveCount maxSize) \<le> maxSize"
  unfolding toRemoveCount_def ceilDiv_def by auto

lemma toRemoveCount_le_length:
  "maxSize \<le> int n \<Longrightarrow> toRemoveCount maxSize \<le> n"
  unfolding toRemoveCount_def ceilDiv_def by (cases "1 \<le> maxSize") auto

lemma removeOldest_fold:
  "n \<le> length es \<Longrightarrow>
   removeOldest n es c = Inr (fold (\<lambda>e c. mapDelete c (fst e)) (take n es) c)"
proof (induction n es c rule: removeOldest.induct)
  case (1 entries cache) then show ?case by simp
next
  case (2 n cache) then show ?case by simp
next
  case (3 n e entries cache) then show ?case by simp
qed

lemma mapDelete_filter:
  "distinct (map fst c) \<Longrightarrow> mapDelete c k = filter (\<lambda>p. fst p \<noteq> k) c"
proof (induction c)
  case Nil then show ?case by simp
next
  case (Cons p c)
  obtain k' v where p: "p = (k', v)" by (cases p)
  have "k' \<notin> fst ` set c" using Cons.prems p by simp
  then have "filter (\<lambda>q. fst q \<noteq> k') c = c" by (induction c) auto
  then show ?case using Cons p by auto
qed

lemma fold_mapDelete_filter:
  "distinct (map fst c) \<Longrightarrow>
   fold (\<lambda>e c. mapDelete c (fst e)) es c = filter (\<lambda>p. fst p \<notin> fst ` set es) c"
proof (induction es arbitrary: c)
  case Nil then show ?case by simp
next
  case (Cons e es)
  have d: "distinct (map fst (filter (\<lambda>p. fst p \<noteq> fst e) c))"
    using Cons.prems by (simp add: distinct_map_filter)
  show ?case
    using Cons.IH [OF d] Cons.prems
    by (simp add: mapDelete_filter)
qed

lemma mapGet_mapSet: "mapGet (mapSet c k v) k = Some v"
  by (induction c k v rule: mapSet.induct) auto

lemma length_mapSet: "length (mapSet c k v) \<le> Suc (length c)"
  by (induction c k v rule: mapSet.induct) auto

lemma keys_mapSet: "fst ` set (mapSet c k v) = insert k (fst ` set c)"
  by (induction c k v rule: mapSet.induct) auto

lemma distinct_mapSet: "distinct (map fst c) \<Longrightarrow> distinct (map fst (mapSet c k v))"
proof (induction c k v rule: mapSet.induct)
  case (1 k v) then show ?case by simp
next
  case (2 k' v' ps k v)
  then show ?case using keys_mapSet [of ps k v] by (auto simp del: keys_mapSet)
qed

lemma sorted_take_le_drop:
  assumes "sorted (map f xs)" and "x \<in> set (take n xs)" and "y \<in> set (drop n xs)"
  shows "f x \<le> f y"
proof -
  have "sorted (map f (take n xs) @ map f (drop n xs))"
    using assms(1) by (simp flip: map_append)
  then show ?thesis using assms(2,3) by (auto simp: sorted_append)
qed

text \<open>
  The eviction loop on a cache with distinct keys: it removes exactly the first \<open>n\<close>
  entries of the cache sorted by timestamp, and nothing that remains is older than
  anything removed.
\<close>

lemma evict_oldest:
  fixes cache :: "'w cache"
  assumes d: "distinct (map fst cache)" and n: "n \<le> length cache"
  defines "removed \<equiv> take n (sort_key (\<lambda>a. timestamp (snd a)) cache)"
  shows "removeOldest n (sort_key (\<lambda>a. timestamp (snd a)) cache) cache =
           Inr (filter (\<lambda>p. p \<notin> set removed) cache)"
    and "length removed = n" and "distinct removed" and "set removed \<subseteq> set cache"
    and "length (filter (\<lambda>p. p \<notin> set removed) cache) = length cache - n"
    and "\<forall>r\<in>set removed. \<forall>s\<in>set (filter (\<lambda>p. p \<notin> set removed) cache).
           timestamp (snd r) \<le> timestamp (snd s)"
proof -
  let ?es = "sort_key (\<lambda>a. timestamp (snd a)) cache"
  have dc: "distinct cache" using d by (simp add: distinct_map)
  show sub: "set removed \<subseteq> set cache"
    unfolding removed_def using set_take_subset [of n ?es] by simp
  show len: "length removed = n" unfolding removed_def using n by simp
  show dr: "distinct removed" unfolding removed_def using dc by simp
  have inj: "inj_on fst (set cache)" using d by (simp add: distinct_map)
  have keys: "fst p \<notin> fst ` set removed \<longleftrightarrow> p \<notin> set removed" if "p \<in> set cache" for p
    using that sub inj by (auto simp: inj_on_def image_iff)
  have "removeOldest n ?es cache = Inr (filter (\<lambda>p. fst p \<notin> fst ` set removed) cache)"
    using removeOldest_fold [of n ?es cache] n fold_mapDelete_filter [OF d, of "take n ?es"]
    by (simp add: removed_def)
  also have "filter (\<lambda>p. fst p \<notin> fst ` set removed) cache = filter (\<lambda>p. p \<notin> set removed) cache"
    by (rule filter_cong) (simp_all add: keys)
  finally show "removeOldest n ?es cache = Inr (filter (\<lambda>p. p \<notin> set removed) cache)" .
  have "length (filter (\<lambda>p. p \<notin> set removed) cache) = card (set cache - set removed)"
  proof -
    have "{x. x \<notin> set removed} \<inter> set cache = set cache - set removed" by auto
    then show ?thesis using dc by (simp add: distinct_length_filter)
  qed
  also have "\<dots> = card (set cache) - card (set removed)"
    using sub by (simp add: card_Diff_subset)
  also have "\<dots> = length cache - n"
    using dc dr len by (simp add: distinct_card)
  finally show "length (filter (\<lambda>p. p \<notin> set removed) cache) = length cache - n" .
  have "set (filter (\<lambda>p. p \<notin> set removed) cache) \<subseteq> set (drop n ?es)"
  proof
    fix s assume "s \<in> set (filter (\<lambda>p. p \<notin> set removed) cache)"
    then have "s \<in> set ?es" "s \<notin> set (take n ?es)" by (simp_all add: removed_def)
    then show "s \<in> set (drop n ?es)"
      using set_append [of "take n ?es" "drop n ?es"] by (simp del: set_append)
  qed
  then show "\<forall>r\<in>set removed. \<forall>s\<in>set (filter (\<lambda>p. p \<notin> set removed) cache).
           timestamp (snd r) \<le> timestamp (snd s)"
    unfolding removed_def
    using sorted_take_le_drop [of "\<lambda>a. timestamp (snd a)" ?es _ n]
    by (meson sorted_sort_key subsetD)
qed

text \<open>With the cache enabled \<open>setCachedData\<close> never throws and always ends with the insert.\<close>

lemma setCachedData_total:
  "\<exists>cache'. setCachedData config cacheKey d now cache =
      Inr (mapSet cache' cacheKey \<lparr>data = d, timestamp = now\<rparr>)" if "enableCache config"
proof (cases "cacheMaxSize config \<le> int (length cache)")
  case True
  then have "toRemoveCount (cacheMaxSize config) \<le> length (sort_key (\<lambda>a. timestamp (snd a)) cache)"
    using toRemoveCount_le_length [of "cacheMaxSize config" "length cache"] by simp
  then show ?thesis
    using that True by (auto simp: setCachedData_def removeOldest_fold)
next
  case False
  then show ?thesis using that by (auto simp: setCachedData_def)
qed

text \<open>
  Claim C4, as amended. For every configured \<open>maxSize \<ge> 1\<close>, \<open>setCachedData\<close> on a cache
  of at most \<open>maxSize\<close> entries returns normally with a cache of at most \<open>maxSize\<close> entries
  (keys still distinct); and when the cache is enabled and holds exactly \<open>maxSize\<close>
  entries, exactly \<open>ceil (maxSize * 0.1)\<close> of them are removed before the insert, none
  of them newer than an entry that stays.
\<close>

theorem setCachedData_bounded_amended:
  fixes cache :: "'w cache"
  assumes "1 \<le> cacheMaxSize config" and "distinct (map fst cache)"
    and "int (length cache) \<le> cacheMaxSize config"
  shows "\<exists>cache'. setCachedData config cacheKey d now cache = Inr cache' \<and>
           int (length cache') \<le> cacheMaxSize config \<and> distinct (map fst cache') \<and>
           (enableCache config \<and> int (length cache) = cacheMaxSize config \<longrightarrow>
             (\<exists>removed. length removed = nat \<lceil>real_of_int (cacheMaxSize config) * 0.1\<rceil> \<and>
                 distinct removed \<and> set removed \<subseteq> set cache \<and>
                 (\<forall>r\<in>set removed. \<forall>s\<in>set cache - set removed.
                     timestamp (snd r) \<le> timestamp (snd s)) \<and>
                 cache' = mapSet (filter (\<lambda>p. p \<notin> set removed) cache) cacheKey
                            \<lparr>data = d, timestamp = now\<rparr>))"
proof (cases "enableCache config")
  case False
  then show ?thesis using assms by (simp add: setCachedData_def)
next
  case en: True
  show ?thesis
  proof (cases "int (length cache) = cacheMaxSize config")
    case False
    then have lt: "int (length cache) < cacheMaxSize config" using assms(3) by simp
    have "int (length (mapSet cache cacheKey \<lparr>data = d, timestamp = now\<rparr>)) \<le> cacheMaxSize config"
      using length_mapSet [of cache cacheKey "\<lparr>data = d, timestamp = now\<rparr>"] lt by simp
    then show ?thesis
      using en lt False assms(2) by (simp add: setCachedData_def distinct_mapSet)
  next
    case full: True
    let ?n = "toRemoveCount (cacheMaxSize config)"
    let ?removed = "take ?n (sort_key (\<lambda>a. timestamp (snd a)) cache)"
    let ?kept = "filter (\<lambda>p. p \<notin> set ?removed) cache"
    let ?new = "mapSet ?kept cacheKey \<lparr>data = d, timestamp = now\<rparr>"
    have n1: "1 \<le> ?n" and n2: "?n \<le> length cache"
      using toRemoveCount_bounds [OF assms(1)] full by simp_all
    note ev = evict_oldest [OF assms(2) n2]
    have res: "setCachedData config cacheKey d now cache = Inr ?new"
      using en full ev(1) by (simp add: setCachedData_def)
    have "length ?new \<le> Suc (length ?kept)" by (rule length_mapSet)
    then have len: "int (length ?new) \<le> cacheMaxSize config"
      using ev(5) n1 n2 full by simp
    have dist: "distinct (map fst ?new)"
      using assms(2) by (intro distinct_mapSet) (simp add: distinct_map_filter)
    have old: "\<forall>r\<in>set ?removed. \<forall>s\<in>set cache - set ?removed.
                 timestamp (snd r) \<le> timestamp (snd s)"
      using ev(6) by auto
    have "length ?removed = nat \<lceil>real_of_int (cacheMaxSize config) * 0.1\<rceil>"
      using ev(2) by (simp only: toRemoveCount_ceiling)
    then show ?thesis
      using res len dist old ev(3,4) by blast
  qed
qed

text \<open>A full cache of size 2: one entry is evicted and the result has 2 entries.\<close>

theorem setCachedData_bounded_amended_witness:
  "\<exists>cache'. setCachedData \<lparr>trustedHosts = [], cacheTtlSeconds = 300, cacheMaxSize = 2,
       nodeEnv = js ''production'', enableCache = True, enableRateLimiting = True\<rparr>
     (js ''weather:durban'') (7::nat) 1000
     [(js ''weather:paarl'', \<lparr>data = 5, timestamp = 900\<rparr>),
      (js ''weather:knysna'', \<lparr>data = 6, timestamp = 800\<rparr>)] = Inr cache' \<and>
     int (length cache') \<le> 2"
proof -
  have d: "distinct (map fst [(js ''weather:paarl'', \<lparr>data = 5::nat, timestamp = 900\<rparr>),
      (js ''weather:knysna'', \<lparr>data = 6, timestamp = 800\<rparr>)])"
    by (simp add: js_def)
  show ?thesis
    using setCachedData_bounded_amended
       [of "\<lparr>trustedHosts = [], cacheTtlSeconds = 300, cacheMaxSize = 2,
       nodeEnv = js ''production'', enableCache = True, enableRateLimiting = True\<rparr>"
       "[(js ''weather:paarl'', \<lparr>data = 5::nat, timestamp = 900\<rparr>),
      (js ''weather:knysna'', \<lparr>data = 6, timestamp = 800\<rparr>)]" "js ''weather:durban''" 7 1000] d
    by auto
qed

text \<open>The same call, evaluated: the older entry, for Knysna, is evicted.\<close>

lemma setCachedData_example:
  "setCachedData \<lparr>trustedHosts = [], cacheTtlSeconds = 300, cacheMaxSize = 2,
       nodeEnv = js ''production'', enableCache = True, enableRateLimiting = True\<rparr>
     (js ''weather:durban'') (7::nat) 1000
     [(js ''weather:paarl'', \<lparr>data = 5, timestamp = 900\<rparr>),
      (js ''weather:knysna'', \<lparr>data = 6, timestamp = 800\<rparr>)] =
   Inr [(js ''weather:paarl'', \<lparr>data = 5, timestamp = 900\<rparr>),
        (js ''weather:durban'', \<lparr>data = 7, timestamp = 1000\<rparr>)]"
  by (simp add: setCachedData_def toRemoveCount_def ceilDiv_def js_def)

text \<open>
  Claim C4 as stated fails for the configured size 0 (\<open>CACHE_MAX_SIZE=0\<close>): the empty
  cache satisfies \<open>size \<le> 0\<close>, \<open>ceil (0 * 0.1) = 0\<close> entries are removed, and the insert
  leaves one entry.
\<close>

theorem setCachedData_zero_maxSize_counterexample:
  "setCachedData \<lparr>trustedHosts = [], cacheTtlSeconds = 300, cacheMaxSize = 0,
       nodeEnv = js ''production'', enableCache = True, enableRateLimiting = True\<rparr>
     (js ''weather:durban'') (7::nat) 1000 [] =
     Inr [(js ''weather:durban'', \<lparr>data = 7, timestamp = 1000\<rparr>)] \<and>
   int (length ([] :: nat cache)) \<le> 0 \<and>
   \<not> int (length [(js ''weather:durban'', \<lparr>data = 7::nat, timestamp = 1000\<rparr>)]) \<le> 0"
  by (simp add: setCachedData_def toRemoveCount_def ceilDiv_def)

text \<open>
  Claim C8. With the cache enabled, \<open>setCachedData k v\<close> at time \<open>now1\<close> returns normally,
  and \<open>getCachedData k\<close> on the resulting cache at any time \<open>now2\<close> with
  \<open>now2 - now1 \<le> cacheTtlSeconds * 1000\<close> returns \<open>v\<close> and leaves the cache as it is.
\<close>

theorem cache_roundtrip:
  assumes "enableCache config" and "now2 - now1 \<le> cacheTtlSeconds config * 1000"
  shows "\<exists>cache'. setCachedData config k v now1 cache = Inr cache' \<and>
                  getCachedData config k now2 cache' = (Some v, cache')"
proof -
  obtain c1 where s: "setCachedData config k v now1 cache =
      Inr (mapSet c1 k \<lparr>data = v, timestamp = now1\<rparr>)"
    using setCachedData_total [OF assms(1), of k v now1 cache] by blast
  have "getCachedData config k now2 (mapSet c1 k \<lparr>data = v, timestamp = now1\<rparr>) =
          (Some v, mapSet c1 k \<lparr>data = v, timestamp = now1\<rparr>)"
    using assms by (simp add: getCachedData_def mapGet_mapSet)
  with s show ?thesis by blast
qed

text \<open>A snapshot stored at 1000 ms is still returned 300 seconds later.\<close>

theorem cache_roundtrip_witness:
  "\<exists>cache'. setCachedData \<lparr>trustedHosts = [], cacheTtlSeconds = 300, cacheMaxSize = 100,
       nodeEnv = js ''production'', enableCache = True, enableRateLimiting = True\<rparr>
     (js ''weather:durban'') (7::nat) 1000 [] = Inr cache' \<and>
    getCachedData \<lparr>trustedHosts = [], cacheTtlSeconds = 300, cacheMaxSize = 100,
       nodeEnv = js ''production'', enableCache = True, enableRateLimiting = True\<rparr>
     (js ''weather:durban'') 301000 cache' = (Some 7, cache')"
  using cache_roundtrip [of "\<lparr>trustedHosts = [], cacheTtlSeconds = 300, cacheMaxSize = 100,
       nodeEnv = js ''production'', enableCache = True, enableRateLimiting = True\<rparr>"
       301000 1000 "js ''weather:durban''" 7 "[]"]
  by simp


section \<open>City validation\<close>

lemma validateCity_cases:
  "validateCity city =
     (if city = [] then
        Inl (ValidationError (js ''City parameter is required and must be a string''))
      else if \<forall>c\<in>set city. isWhiteSpace c then
        Inl (ValidationError (js ''City parameter cannot be empty''))
      else if length city > 100 then
        Inl (ValidationError (js ''City name is too long (max 100 characters)''))
      else if \<exists>c\<in>set city. \<not> cityCharAllowed c then
        Inl (ValidationError (js ''City name contains invalid characters''))
      else Inr ())"
  by (auto simp: validateCity_def trim_empty_iff Let_def filter_id_conv)

lemma validateCity_error:
  "validateCity city = Inl e \<Longrightarrow> \<exists>msg. e = ValidationError msg"
  unfolding validateCity_cases by (auto split: if_splits)

lemma ValidationError_fields:
  "statusCode (ValidationError msg) = 400"
  "code (ValidationError msg) = Some (js ''VALIDATION_ERROR'')"
  "name (ValidationError msg) = js ''ValidationError''"
  "message (ValidationError msg) = msg"
  by (simp_all add: ValidationError_def newApiError_def)

text \<open>
  Claim C7, as amended. \<open>validateCity\<close> throws exactly when the city is empty, consists of
  whitespace only, is longer than 100 code units, or contains a character other than
  the ASCII letters \<open>A\<close>..\<open>Z\<close> and \<open>a\<close>..\<open>z\<close>, the whitespace characters of \<open>\s\<close>, the
  hyphen and the apostrophe; what it throws is a \<open>ValidationError\<close> (status 400). It
  rejects the empty string, every string of 101 code units and \<open>London<script>\<close>, and
  accepts \<open>Cape Town\<close> and \<open>O'ahu\<close>.
\<close>

theorem validateCity_rejects_iff_amended:
  "((\<exists>e. validateCity city = Inl e) \<longleftrightarrow>
      city = [] \<or> (\<forall>c\<in>set city. isWhiteSpace c) \<or> length city > 100 \<or>
      (\<exists>c\<in>set city. \<not> ((0x41 \<le> c \<and> c \<le> 0x5A) \<or> (0x61 \<le> c \<and> c \<le> 0x7A) \<or>
                           isWhiteSpace c \<or> c = 0x2D \<or> c = 0x27))) \<and>
   (\<forall>e. validateCity city = Inl e \<longrightarrow>
      name e = js ''ValidationError'' \<and> statusCode e = 400 \<and>
      code e = Some (js ''VALIDATION_ERROR'')) \<and>
   (\<exists>e. validateCity [] = Inl e) \<and>
   (length city = 101 \<longrightarrow> (\<exists>e. validateCity city = Inl e)) \<and>
   (\<exists>e. validateCity (js ''London<script>'') = Inl e) \<and>
   validateCity (js ''Cape Town'') = Inr () \<and>
   validateCity (js ''O'' @ [0x27] @ js ''ahu'') = Inr ()"
proof -
  have iff: "(\<exists>e. validateCity city = Inl e) \<longleftrightarrow>
      city = [] \<or> (\<forall>c\<in>set city. isWhiteSpace c) \<or> length city > 100 \<or>
      (\<exists>c\<in>set city. \<not> ((0x41 \<le> c \<and> c \<le> 0x5A) \<or> (0x61 \<le> c \<and> c \<le> 0x7A) \<or>
                           isWhiteSpace c \<or> c = 0x2D \<or> c = 0x27))" for city
    unfolding validateCity_cases cityCharAllowed_def by auto
  have err: "\<forall>e. validateCity city = Inl e \<longrightarrow>
      name e = js ''ValidationError'' \<and> statusCode e = 400 \<and>
      code e = Some (js ''VALIDATION_ERROR'')"
    using validateCity_error [of city] by (auto simp: ValidationError_fields)
  have e0: "\<exists>e. validateCity [] = Inl e" unfolding iff by simp
  have e101: "length city = 101 \<longrightarrow> (\<exists>e. validateCity city = Inl e)" unfolding iff by simp
  have london: "\<exists>e. validateCity (js ''London<script>'') = Inl e"
    unfolding iff by (simp add: js_def isWhiteSpace_def)
  have cape: "validateCity (js ''Cape Town'') = Inr ()"
    unfolding validateCity_cases by (simp add: js_def isWhiteSpace_def cityCharAllowed_def)
  have oahu: "validateCity (js ''O'' @ [0x27] @ js ''ahu'') = Inr ()"
    unfolding validateCity_cases by (simp add: js_def isWhiteSpace_def cityCharAllowed_def)
  show ?thesis using iff err e0 e101 london cape oahu by blast
qed

text \<open>\<open>Durban\<close> meets none of the four conditions and is accepted; \<open>Durban!\<close> is rejected.\<close>

theorem validateCity_rejects_iff_amended_witness:
  "\<not> (\<exists>e. validateCity (js ''Durban'') = Inl e) \<and> (\<exists>e. validateCity (js ''Durban!'') = Inl e)"
proof
  have "\<not> (js ''Durban'' = [] \<or> (\<forall>c\<in>set (js ''Durban''). isWhiteSpace c) \<or>
      length (js ''Durban'') > 100 \<or>
      (\<exists>c\<in>set (js ''Durban''). \<not> ((0x41 \<le> c \<and> c \<le> 0x5A) \<or> (0x61 \<le> c \<and> c \<le> 0x7A) \<or>
                           isWhiteSpace c \<or> c = 0x2D \<or> c = 0x27)))"
    by (simp add: js_def isWhiteSpace_def)
  then show "\<not> (\<exists>e. validateCity (js ''Durban'') = Inl e)"
    unfolding validateCity_rejects_iff_amended [of "js ''Durban''", THEN conjunct1] .
  have "js ''Durban!'' = [] \<or> (\<forall>c\<in>set (js ''Durban!''). isWhiteSpace c) \<or>
      length (js ''Durban!'') > 100 \<or>
      (\<exists>c\<in>set (js ''Durban!''). \<not> ((0x41 \<le> c \<and> c \<le> 0x5A) \<or> (0x61 \<le> c \<and> c \<le> 0x7A) \<or>
                           isWhiteSpace c \<or> c = 0x2D \<or> c = 0x27))"
    by (simp add: js_def isWhiteSpace_def)
  then show "\<exists>e. validateCity (js ''Durban!'') = Inl e"
    unfolding validateCity_rejects_iff_amended [of "js ''Durban!''", THEN conjunct1] .
qed

text \<open>
  Claim C7 as stated fails in both directions. \<open>S\<close>, U+00E3, \<open>o Paulo\<close> (U+00E3 is the
  letter a with tilde) consists of letters and a space only, is neither blank nor long,
  and is rejected; \<open>Cape\<close>, U+0009, \<open>Town\<close> contains a TAB, which is no letter, space,
  hyphen or apostrophe, and is accepted.
\<close>

theorem validateCity_letters_spaces_counterexample:
  "validateCity (js ''S'' @ [0xE3] @ js ''o Paulo'') =
     Inl (ValidationError (js ''City name contains invalid characters'')) \<and>
   validateCity (js ''Cape'' @ [0x09] @ js ''Town'') = Inr ()"
  unfolding validateCity_cases by (simp add: js_def isWhiteSpace_def cityCharAllowed_def)

text \<open>
  Claim C10. The letter check is ASCII-only: a city that contains any code unit from
  U+0080 upwards that is not one of the whitespace characters of \<open>\s\<close>, so in particular
  any non-ASCII letter, is rejected with a \<open>ValidationError\<close>.
\<close>

theorem validateCity_nonascii_rejected:
  assumes "c \<in> set city" and "0x80 \<le> c" and "\<not> isWhiteSpace c"
  shows "\<exists>msg. validateCity city = Inl (ValidationError msg)"
proof -
  have "\<not> c \<le> 0x7A" "\<not> c \<le> 0x5A" "c \<noteq> 0x2D" "c \<noteq> 0x27"
    using assms(2) order_trans [of "0x80" c "0x7A"] order_trans [of "0x80" c "0x5A"] by auto
  then have "\<not> cityCharAllowed c"
    using assms(3) by (simp add: cityCharAllowed_def)
  with assms(1) have "\<exists>c\<in>set city. \<not> cityCharAllowed c" by blast
  then show ?thesis unfolding validateCity_cases by auto
qed

text \<open>The city \<open>S\<close>, U+00E3, \<open>o Paulo\<close>.\<close>

theorem validateCity_nonascii_rejected_witness:
  "\<exists>msg. validateCity (js ''S'' @ [0xE3] @ js ''o Paulo'') = Inl (ValidationError msg)"
  using validateCity_nonascii_rejected [of "0xE3" "js ''S'' @ [0xE3] @ js ''o Paulo''"]
  by (simp add: isWhiteSpace_def)

section \<open>Upstream failures\<close>

lemma ExternalApiError_fields:
  "statusCode (ExternalApiError msg service ext) = 502"
  "code (ExternalApiError msg service ext) = Some (js ''EXTERNAL_API_ERROR'')"
  "name (ExternalApiError msg service ext) = js ''ExternalApiError''"
  by (simp_all add: ExternalApiError_def newApiError_def)

lemma fetchCatch_ExternalApiError:
  "fetchCatch (ApiErr (ExternalApiError msg service ext)) = ApiErr (ExternalApiError msg service ext)"
  by (simp add: fetchCatch_def ExternalApiError_fields js_def)

lemma fetch_401:
  "fetchWeatherData city (FetchResponse 401 payload) =
     Inl (ApiErr (ExternalApiError (js ''Invalid API key for OpenWeather service'')
                    (js ''OpenWeather API'') (Some 401)))"
  by (simp add: fetchWeatherData_def fetchCatch_ExternalApiError)

lemma validateCity_status:
  "validateCity city = Inl e \<Longrightarrow> statusCode e = 400"
  using validateCity_error [of city e] by (auto simp: ValidationError_fields)

text \<open>
  Claim C6. When the upstream provider responds with status 401, \<open>fetchWeatherData\<close>
  fails with an \<open>ExternalApiError\<close> whose \<open>statusCode\<close> is 502 and whose \<open>code\<close> is
  \<open>EXTERNAL_API_ERROR\<close>. The response of \<open>GET\<close> then never has status 401, and when the
  fetch is made (method \<open>GET\<close>, valid city, cache miss) it has status 502 and carries that
  error.
\<close>

theorem upstream_401_is_502:
  "fetchWeatherData city (FetchResponse 401 payload) =
     Inl (ApiErr (ExternalApiError (js ''Invalid API key for OpenWeather service'')
                    (js ''OpenWeather API'') (Some 401))) \<and>
   statusCode (ExternalApiError (js ''Invalid API key for OpenWeather service'')
                    (js ''OpenWeather API'') (Some 401)) = 502 \<and>
   code (ExternalApiError (js ''Invalid API key for OpenWeather service'')
                    (js ''OpenWeather API'') (Some 401)) = Some (js ''EXTERNAL_API_ERROR'') \<and>
   status (fst (GET config meth cityParam now1 (FetchResponse 401 payload) now2 cache)) \<noteq> 401 \<and>
   (meth = js ''GET'' \<and> validateCity (the (orElse cityParam (Some []))) = Inr () \<and>
    fst (getCachedData config (js ''weather:'' @ toLowerCase (the cityParam)) now1 cache) = None \<longrightarrow>
      fst (GET config meth cityParam now1 (FetchResponse 401 payload) now2 cache) =
        \<lparr>status = 502, xCache = None,
         body = ErrorBody (ExternalApiError (js ''Invalid API key for OpenWeather service'')
                    (js ''OpenWeather API'') (Some 401))\<rparr>)"
proof -
  let ?e = "ExternalApiError (js ''Invalid API key for OpenWeather service'')
                    (js ''OpenWeather API'') (Some 401)"
  let ?G = "GET config meth cityParam now1 (FetchResponse 401 payload) now2 cache"
  have f: "fetchWeatherData c (FetchResponse 401 payload) = Inl (ApiErr ?e)" for c
    by (rule fetch_401)
  have made: "fst ?G = \<lparr>status = 502, xCache = None, body = ErrorBody ?e\<rparr>"
    if "meth = js ''GET''" "validateCity (the (orElse cityParam (Some []))) = Inr ()"
       "fst (getCachedData config (js ''weather:'' @ toLowerCase (the cityParam)) now1 cache) = None"
    using that
    by (simp add: GET_def f handleError_def errorResponse_def split_beta
          ExternalApiError_fields)
  have never: "status (fst ?G) \<noteq> 401"
  proof (cases "meth = js ''GET''")
    case False
    then show ?thesis by (simp add: GET_def)
  next
    case get: True
    show ?thesis
    proof (cases "validateCity (the (orElse cityParam (Some [])))")
      case (Inl e)
      then show ?thesis using get validateCity_status [OF Inl]
        by (simp add: GET_def errorResponse_def)
    next
      case (Inr u)
      show ?thesis
      proof (cases "fst (getCachedData config (js ''weather:'' @ toLowerCase (the cityParam)) now1 cache)")
        case None
        then show ?thesis using made get Inr by simp
      next
        case (Some d)
        then show ?thesis using get Inr by (simp add: GET_def split_beta)
      qed
    qed
  qed
  show ?thesis using f made never by (simp add: ExternalApiError_fields)
qed

text \<open>\<open>GET /api/weather?city=Durban\<close> on an empty cache, the provider answering 401.\<close>

theorem upstream_401_is_502_witness:
  "fst (GET \<lparr>trustedHosts = [], cacheTtlSeconds = 300, cacheMaxSize = 100,
            nodeEnv = js ''production'', enableCache = True, enableRateLimiting = True\<rparr>
         (js ''GET'') (Some (js ''Durban'')) 1000 (FetchResponse 401 JsonNonObject) 1001
         ([] :: nat cache)) =
   \<lparr>status = 502, xCache = None,
    body = ErrorBody (ExternalApiError (js ''Invalid API key for OpenWeather service'')
                    (js ''OpenWeather API'') (Some 401))\<rparr>"
proof -
  have v: "validateCity (the (orElse (Some (js ''Durban'')) (Some []))) = Inr ()"
    by (simp add: validateCity_def orElse_def truthy_def trim_def js_def isWhiteSpace_def
          cityCharAllowed_def)
  show ?thesis
    using upstream_401_is_502 [of "js ''Durban''" JsonNonObject
        "\<lparr>trustedHosts = [], cacheTtlSeconds = 300, cacheMaxSize = 100,
            nodeEnv = js ''production'', enableCache = True, enableRateLimiting = True\<rparr>"
        "js ''GET''" "Some (js ''Durban'')" 1000 1001 "[] :: nat cache"] v
    by (simp add: getCachedData_def)
qed


end
